theory Spec2Isabelle
  imports Main "HOL-Library.Multiset"
begin

section \<open>JavaScript values\<close>

text \<open>
  The two components are written in TypeScript/JavaScript. The values their props hold
  are primitives and arrays of primitives. A string is a list of code units (each
  \<open>char\<close> stands for one UTF-16 code unit, so \<open>length\<close> is \<open>.length\<close>). Numbers are
  restricted to the integers and \<open>NaN\<close>: these are the numbers on which \<open>===\<close> and
  truthiness behave differently.
\<close>

datatype prim = Undefined | Null | Bool bool | Num int | NaN | Str string

text \<open>
  An array is an object: a prop holds a reference to it, and the array itself lives in
  the store. The store is the list of all arrays allocated so far; an address is an
  index into it, and allocation appends. The prop type of the checkbox value is
  \<open>boolean | boolean[] | string | string[]\<close>, so array elements are primitives.
\<close>

type_synonym addr = nat
type_synonym heap = "prim list list"

datatype jsval = Prim prim | Arr addr

text \<open>The strict equality \<open>===\<close> on primitives: \<open>NaN\<close> is equal to nothing.\<close>

fun strict_eq :: "prim \<Rightarrow> prim \<Rightarrow> bool" where
  "strict_eq NaN _ = False"
| "strict_eq _ NaN = False"
| "strict_eq a b = (a = b)"

text \<open>\<open>ToBoolean\<close>: the falsy primitives are undefined, null, false, 0, NaN and the
  empty string.\<close>

fun truthy :: "prim \<Rightarrow> bool" where
  "truthy Undefined = False"
| "truthy Null = False"
| "truthy (Bool b) = b"
| "truthy (Num n) = (n \<noteq> 0)"
| "truthy NaN = False"
| "truthy (Str s) = (s \<noteq> [])"

text \<open>\<open>a || b\<close> on values: \<open>a\<close> when it is truthy, else \<open>b\<close>.\<close>

definition js_or :: "prim \<Rightarrow> prim \<Rightarrow> prim" where
  "js_or a b = (if truthy a then a else b)"

text \<open>\<open>Array.prototype.find\<close> with the callback \<open>(v) => v === w\<close>: the first element
  strictly equal to \<open>w\<close>, or undefined.\<close>

fun js_find_eq :: "prim list \<Rightarrow> prim \<Rightarrow> prim" where
  "js_find_eq [] w = Undefined"
| "js_find_eq (v # vs) w = (if strict_eq v w then v else js_find_eq vs w)"

text \<open>Reading the array a reference points to. A reference always points to an
  allocated array; the read of an address outside the store is the empty array only to
  keep the function total, and the theorems below assume it away.\<close>

definition deref :: "heap \<Rightarrow> addr \<Rightarrow> prim list" where
  "deref h a = (if a < length h then h ! a else [])"

section \<open>The checkbox component (src/unnamed/part 000)\<close>

text \<open>The props of the component that the script reads, the inherited attribute
  \<open>$attrs['aria-describedby']\<close> and the one data field, \<open>describedById\<close>. A string prop
  whose default is null is an optional string.\<close>

record checkbox =
  "value" :: jsval
  disabled :: bool
  mode :: string
  tooltip :: "string option"
  tooltipKey :: "string option"
  valueWhenTrue :: prim
  descriptionKey :: "string option"
  description :: "string option"
  attrs_aria_describedby :: "string option"
  describedById :: string

text \<open>\<open>isMulti\<close>: \<open>Array.isArray(value)\<close>. Where the script branches on it and then uses
  the value as an array or as a scalar, the model takes the value apart by cases.\<close>

fun isMulti :: "jsval \<Rightarrow> bool" where
  "isMulti (Arr a) = True"
| "isMulti (Prim p) = False"

text \<open>\<open>isString\<close>: \<open>typeof value === 'string'\<close>.\<close>

fun isString :: "prim \<Rightarrow> bool" where
  "isString (Str s) = True"
| "isString _ = False"

text \<open>\<open>findTrueValues\<close>: \<open>value.find((v) => v === this.valueWhenTrue) || false\<close>.\<close>

definition findTrueValues :: "prim list \<Rightarrow> prim \<Rightarrow> prim" where
  "findTrueValues vs w = js_or (js_find_eq vs w) (Bool False)"

text \<open>\<open>isChecked\<close>:
  \<open>this.isMulti(this.value) ? this.findTrueValues(this.value) : this.value === this.valueWhenTrue\<close>.
  The result is a value; the template binds it to \<open>:checked\<close>, which reads its
  truthiness.\<close>

definition isChecked :: "heap \<Rightarrow> checkbox \<Rightarrow> prim" where
  "isChecked h c =
     (case value c of
        Arr a \<Rightarrow> findTrueValues (deref h a) (valueWhenTrue c)
      | Prim p \<Rightarrow> Bool (strict_eq p (valueWhenTrue c)))"

text \<open>Modelled from the spec: the constants \<open>_EDIT\<close> and \<open>_VIEW\<close> of
  \<open>@shell/config/query-params\<close> are not under src/; the source's comment on \<open>isDisabled\<close>
  and the prop's documentation name the two modes edit and view.\<close>

definition EDIT :: string where
  "EDIT = ''edit''"

definition VIEW :: string where
  "VIEW = ''view''"

text \<open>\<open>isDisabled\<close>: \<open>this.disabled || this.mode === _VIEW\<close>.\<close>

definition isDisabled :: "checkbox \<Rightarrow> bool" where
  "isDisabled c = (disabled c \<or> mode c = VIEW)"

text \<open>Modelled from the spec: \<open>removeObject\<close> and \<open>addObject\<close> of \<open>@shell/utils/array\<close> are
  not under src/. The spec has the checked branch produce the collection "with
  \<open>valueWhenTrue\<close> removed", assuming "removal of one matching entry (first
  occurrence)", and the unchecked branch produce it "with \<open>valueWhenTrue\<close> appended".
  The source calls both for their effect on the array passed in and discards what they
  return, so they update that array in place.\<close>

fun removeObject :: "prim list \<Rightarrow> prim \<Rightarrow> prim list" where
  "removeObject [] w = []"
| "removeObject (v # vs) w = (if strict_eq v w then vs else v # removeObject vs w)"

definition addObject :: "prim list \<Rightarrow> prim \<Rightarrow> prim list" where
  "addObject vs w = vs @ [w]"

text \<open>An in-place update of the array at an address.\<close>

definition array_update :: "heap \<Rightarrow> addr \<Rightarrow> (prim list \<Rightarrow> prim list) \<Rightarrow> heap" where
  "array_update h a f = (if a < length h then h[a := f (h ! a)] else h)"

text \<open>lodash's \<open>cloneDeep\<close>: a primitive is returned as it is; an array is copied into a
  newly allocated array (its elements are primitives, so the copy is deep).\<close>

fun cloneDeep :: "heap \<Rightarrow> jsval \<Rightarrow> jsval \<times> heap" where
  "cloneDeep h (Prim p) = (Prim p, h)"
| "cloneDeep h (Arr a) = (Arr (length h), h @ [deref h a])"

text \<open>The part of a mouse or keyboard event the handler reads: the tag name and the
  \<open>href\<close> property of its target (undefined on an element that has none) and the four
  modifier keys.\<close>

record event =
  target_tagName :: string
  target_href :: prim
  shiftKey :: bool
  altKey :: bool
  ctrlKey :: bool
  metaKey :: bool

text \<open>What the handler does to the outside, in the order it does it: the two calls on
  the event, the \<open>update:value\<close> notification with its payload, and the dispatch of the
  custom click event (bubbles, cancelable, shift, alt, ctrl, meta).\<close>

datatype effect =
    StopPropagation
  | PreventDefault
  | Emit_update_value jsval
  | DispatchClick bool bool bool bool bool bool

text \<open>\<open>clicked\<close>. The result is the returned value (true on a link, undefined
  otherwise), the effects and the store after the call. \<open>this.isChecked\<close> is read after
  the clone has been made and before it is changed.\<close>

definition clicked :: "heap \<Rightarrow> checkbox \<Rightarrow> event \<Rightarrow> prim \<times> effect list \<times> heap" where
  "clicked h c ev =
     (if target_tagName ev = ''A'' \<and> truthy (target_href ev) then (Bool True, [], h)
      else if isDisabled c then (Undefined, [StopPropagation, PreventDefault], h)
      else
        (let click = DispatchClick True False (shiftKey ev) (altKey ev) (ctrlKey ev) (metaKey ev);
             (v, h1) = cloneDeep h (value c);
             w = valueWhenTrue c
         in case v of
              Arr a \<Rightarrow>
                (let h2 = (if truthy (isChecked h1 c)
                           then array_update h1 a (\<lambda>vs. removeObject vs w)
                           else array_update h1 a (\<lambda>vs. addObject vs w))
                 in (Undefined, [StopPropagation, PreventDefault, Emit_update_value v], h2))
            | Prim p \<Rightarrow>
                if isString w then
                  (if truthy (isChecked h1 c)
                   then (Undefined, [StopPropagation, PreventDefault, Emit_update_value (Prim Null)], h1)
                   else (Undefined, [StopPropagation, PreventDefault, Emit_update_value (Prim w)], h1))
                else
                  (Undefined,
                   [StopPropagation, PreventDefault, Emit_update_value (Prim (Bool (\<not> truthy p))), click],
                   h1)))"

text \<open>The value proposals among the effects of a call, in order.\<close>

fun proposals :: "effect list \<Rightarrow> jsval list" where
  "proposals [] = []"
| "proposals (Emit_update_value v # fx) = v # proposals fx"
| "proposals (_ # fx) = proposals fx"

text \<open>The owner of the value feeds every proposal back in as the new \<open>value\<close> prop.
  \<open>toggle\<close> is one activation seen from the owner: the component and the store after the
  handler has run and the owner has reacted.\<close>

definition toggle :: "heap \<Rightarrow> checkbox \<Rightarrow> event \<Rightarrow> checkbox \<times> heap" where
  "toggle h c ev =
     (case clicked h c ev of
        (r, fx, h') \<Rightarrow> (fold (\<lambda>v c'. c'\<lparr>value := v\<rparr>) (proposals fx) c, h'))"

text \<open>A value as the owner reads it: a scalar, or the elements of the collection.\<close>

datatype content = Scalar prim | Collection "prim list"

fun content_of :: "heap \<Rightarrow> jsval \<Rightarrow> content" where
  "content_of h (Prim p) = Scalar p"
| "content_of h (Arr a) = Collection (deref h a)"

text \<open>A component is well formed in a store when its value, if a reference, points
  into the store.\<close>

fun allocated :: "heap \<Rightarrow> jsval \<Rightarrow> bool" where
  "allocated h (Prim p) = True"
| "allocated h (Arr a) = (a < length h)"

text \<open>An activation is suppressed when its target is a link with an href or the control
  is disabled.\<close>

definition is_link :: "event \<Rightarrow> bool" where
  "is_link ev = (target_tagName ev = ''A'' \<and> truthy (target_href ev))"

text \<open>The props as the component declares their defaults, with a sample of the random
  suffix of \<open>describedById\<close>, and a plain click on the control itself.\<close>

definition default_checkbox :: checkbox where
  "default_checkbox =
     \<lparr> value = Prim (Bool False), disabled = False, mode = EDIT, tooltip = None,
       tooltipKey = None, valueWhenTrue = Bool True, descriptionKey = None,
       description = None, attrs_aria_describedby = None,
       describedById = ''described-by-abcdefghijkl'' \<rparr>"

definition plain_click :: event where
  "plain_click =
     \<lparr> target_tagName = ''SPAN'', target_href = Undefined, shiftKey = False,
       altKey = False, ctrlKey = False, metaKey = False \<rparr>"

text \<open>The effects and the store in what \<open>clicked\<close> hands back.\<close>

definition effects_of :: "prim \<times> effect list \<times> heap \<Rightarrow> effect list" where
  "effects_of r = fst (snd r)"

definition heap_of :: "prim \<times> effect list \<times> heap \<Rightarrow> heap" where
  "heap_of r = snd (snd r)"


text \<open>A run of activations, the owner feeding each proposal back in: all the proposals
  made on the way, and the component and store at the end.\<close>

fun run :: "heap \<Rightarrow> checkbox \<Rightarrow> event list \<Rightarrow> jsval list \<times> checkbox \<times> heap" where
  "run h c [] = ([], c, h)"
| "run h c (ev # evs) =
     (case toggle h c ev of
        (c', h') \<Rightarrow>
          (case run h' c' evs of
             (ps, c'', h'') \<Rightarrow> (proposals (effects_of (clicked h c ev)) @ ps, c'', h'')))"

text \<open>\<open>typeof value === 'number'\<close>.\<close>

fun isNumber :: "prim \<Rightarrow> bool" where
  "isNumber (Num n) = True"
| "isNumber NaN = True"
| "isNumber _ = False"

text \<open>\<open>typeof value === 'boolean'\<close>, for a proposed value.\<close>

fun isBoolean :: "jsval \<Rightarrow> bool" where
  "isBoolean (Prim (Bool b)) = True"
| "isBoolean _ = False"

subsection \<open>The toggle algorithm in the words of the spec\<close>

text \<open>The derived flag as the spec defines it: for a collection, \<open>valueWhenTrue\<close> is
  present in it; for a scalar, \<open>value === valueWhenTrue\<close>.\<close>

fun checked_spec :: "content \<Rightarrow> prim \<Rightarrow> bool" where
  "checked_spec (Collection vs) w = (w \<in> set vs)"
| "checked_spec (Scalar p) w = strict_eq p w"

text \<open>The three steps of the spec's toggle algorithm, given the current flag: a
  collection loses \<open>valueWhenTrue\<close> when checked and gains it at the end otherwise; with
  a string \<open>valueWhenTrue\<close> a scalar becomes null when checked and \<open>valueWhenTrue\<close>
  otherwise; in the remaining case it becomes the negation of the value.\<close>

fun next_value :: "bool \<Rightarrow> content \<Rightarrow> prim \<Rightarrow> content" where
  "next_value checked (Collection vs) w =
     Collection (if checked then removeObject vs w else vs @ [w])"
| "next_value checked (Scalar p) w =
     (if isString w then (if checked then Scalar Null else Scalar w)
      else Scalar (Bool (\<not> truthy p)))"

text \<open>\<open>ariaDescribedBy\<close>. The inherited attribute is a string when it is there, and
  the result is a string or undefined (\<open>None\<close>). A string is truthy when it is not
  empty; a template literal prints undefined as the word.\<close>

definition truthy_str :: "string option \<Rightarrow> bool" where
  "truthy_str s = (case s of None \<Rightarrow> False | Some t \<Rightarrow> t \<noteq> [])"

definition template :: "string option \<Rightarrow> string" where
  "template s = (case s of None \<Rightarrow> ''undefined'' | Some t \<Rightarrow> t)"

definition ariaDescribedBy :: "checkbox \<Rightarrow> string option" where
  "ariaDescribedBy c =
     (let inheritedDescribedBy = attrs_aria_describedby c;
          internalDescribedBy =
            (if truthy_str (descriptionKey c) \<or> truthy_str (description c)
             then Some (describedById c) else None)
      in if truthy_str inheritedDescribedBy \<and> truthy_str internalDescribedBy
         then Some (template inheritedDescribedBy @ '' '' @ template internalDescribedBy)
         else if truthy_str inheritedDescribedBy \<or> truthy_str internalDescribedBy
         then Some (template (if truthy_str inheritedDescribedBy
                              then inheritedDescribedBy else internalDescribedBy))
         else None)"

text \<open>\<open>hasTooltip\<close>: \<open>!!this.tooltip || !!this.tooltipKey\<close>.\<close>

definition hasTooltip :: "checkbox \<Rightarrow> bool" where
  "hasTooltip c = (truthy_str (tooltip c) \<or> truthy_str (tooltipKey c))"

text \<open>The test of \<open>ariaDescribedBy\<close> and of the template for a description:
  \<open>descriptionKey || description\<close>.\<close>

definition hasDescription :: "checkbox \<Rightarrow> bool" where
  "hasDescription c = (truthy_str (descriptionKey c) \<or> truthy_str (description c))"

text \<open>The data function: \<open>describedById\<close> is \<open>described-by-\<close> followed by twelve random
  letters.\<close>

definition checkbox_data :: "string \<Rightarrow> checkbox \<Rightarrow> checkbox" where
  "checkbox_data random c = c\<lparr>describedById := ''described-by-'' @ random\<rparr>"

subsection \<open>Toggling twice\<close>

text \<open>Two activations in a row, the owner feeding the first proposal back in before the
  second.\<close>

definition toggle_twice :: "heap \<Rightarrow> checkbox \<Rightarrow> event \<Rightarrow> event \<Rightarrow> checkbox \<times> heap" where
  "toggle_twice h c ev1 ev2 = (case toggle h c ev1 of (c1, h1) \<Rightarrow> toggle h1 c1 ev2)"

text \<open>What the owner holds after an activation, and whether the control then shows as
  checked.\<close>

definition value_after :: "checkbox \<times> heap \<Rightarrow> content" where
  "value_after r = content_of (snd r) (value (fst r))"

definition checked_after :: "checkbox \<times> heap \<Rightarrow> bool" where
  "checked_after r = truthy (isChecked (snd r) (fst r))"

text \<open>The truthiness of \<open>isChecked\<close> as a function of what the value holds, and two
  activations as a function of it: the store drops out of both.\<close>

fun checked_content :: "content \<Rightarrow> prim \<Rightarrow> bool" where
  "checked_content (Collection vs) w = truthy (findTrueValues vs w)"
| "checked_content (Scalar p) w = strict_eq p w"

definition twice :: "content \<Rightarrow> prim \<Rightarrow> content" where
  "twice x w =
     (let y = next_value (checked_content x w) x w
      in next_value (checked_content y w) y w)"

section \<open>The detail text component (src/shell/components/DetailText.vue)\<close>

subsection \<open>\<open>JSON.parse\<close>\<close>

text \<open>The built-in parser, as the JSON grammar defines it: a value is an object, an
  array, a string, a number or one of the three literals, with white space (space, tab,
  line feed, carriage return) around it. The parsed value keeps the text of numbers and
  strings. \<open>None\<close> is the \<open>SyntaxError\<close> the built-in throws.\<close>

datatype json =
    JNull
  | JBool bool
  | JNumber string
  | JString string
  | JArray "json list"
  | JObject "(string \<times> json) list"

definition is_ws :: "char \<Rightarrow> bool" where
  "is_ws c = (c = CHR 0x20 \<or> c = CHR 0x09 \<or> c = CHR 0x0A \<or> c = CHR 0x0D)"

definition is_digit :: "char \<Rightarrow> bool" where
  "is_digit c = (c \<in> set ''0123456789'')"

definition is_hex :: "char \<Rightarrow> bool" where
  "is_hex c = (c \<in> set ''0123456789abcdefABCDEF'')"

fun skip_ws :: "string \<Rightarrow> string" where
  "skip_ws [] = []"
| "skip_ws (c # cs) = (if is_ws c then skip_ws cs else c # cs)"

text \<open>The rest of a string after its opening quote: up to the closing quote, with the
  escapes of the grammar and no raw control character.\<close>

fun parse_string :: "string \<Rightarrow> (string \<times> string) option" where
  "parse_string [] = None"
| "parse_string (c # cs) =
     (if c = CHR 0x22 then Some ([], cs)
      else if c = CHR 0x5C then
        (case cs of
           [] \<Rightarrow> None
         | e # cs' \<Rightarrow>
             if e \<in> set [CHR 0x22, CHR 0x5C, CHR ''/'', CHR ''b'', CHR ''f'', CHR ''n'',
                          CHR ''r'', CHR ''t''] then
               map_option (apfst (\<lambda>s. c # e # s)) (parse_string cs')
             else if e = CHR ''u'' \<and> 4 \<le> length cs' \<and> list_all is_hex (take 4 cs') then
               map_option (apfst (\<lambda>s. c # e # take 4 cs' @ s)) (parse_string (drop 4 cs'))
             else None)
      else if of_char c < (0x20 :: nat) then None
      else map_option (apfst (\<lambda>s. c # s)) (parse_string cs))"

text \<open>A number: an optional minus, an integer part without a leading zero, an optional
  fraction and an optional exponent. Each part returns what follows it.\<close>

definition parse_digits :: "string \<Rightarrow> string option" where
  "parse_digits cs = (if takeWhile is_digit cs = [] then None else Some (dropWhile is_digit cs))"

definition parse_int :: "string \<Rightarrow> string option" where
  "parse_int cs =
     (case cs of
        [] \<Rightarrow> None
      | d # r \<Rightarrow> if d = CHR ''0'' then Some r
                 else if is_digit d then Some (dropWhile is_digit r)
                 else None)"

definition parse_frac :: "string \<Rightarrow> string option" where
  "parse_frac cs =
     (case cs of
        [] \<Rightarrow> Some cs
      | d # r \<Rightarrow> if d = CHR ''.'' then parse_digits r else Some cs)"

definition parse_exp :: "string \<Rightarrow> string option" where
  "parse_exp cs =
     (case cs of
        [] \<Rightarrow> Some cs
      | d # r \<Rightarrow>
          if d = CHR ''e'' \<or> d = CHR ''E'' then
            (case r of
               [] \<Rightarrow> None
             | s # r' \<Rightarrow> if s = CHR ''+'' \<or> s = CHR ''-'' then parse_digits r' else parse_digits r)
          else Some cs)"

definition parse_number :: "string \<Rightarrow> (json \<times> string) option" where
  "parse_number cs =
     (let unsigned = (case cs of [] \<Rightarrow> cs | d # r \<Rightarrow> if d = CHR ''-'' then r else cs)
      in case Option.bind (Option.bind (parse_int unsigned) parse_frac) parse_exp of
           None \<Rightarrow> None
         | Some r \<Rightarrow> Some (JNumber (take (length cs - length r) cs), r))"

definition parse_literal :: "string \<Rightarrow> (json \<times> string) option" where
  "parse_literal cs =
     (if take 4 cs = ''true'' then Some (JBool True, drop 4 cs)
      else if take 5 cs = ''false'' then Some (JBool False, drop 5 cs)
      else if take 4 cs = ''null'' then Some (JNull, drop 4 cs)
      else None)"

lemma skip_ws_length: "length (skip_ws cs) \<le> length cs"
  by (induction cs) auto

lemma skip_ws_Cons: "skip_ws cs = c # r \<Longrightarrow> length r < length cs"
  using skip_ws_length [of cs] by simp

text \<open>A value, the elements of an array after its first bracket, and the members of an
  object after its first brace. Each returns what it parsed and the rest of the input.
  The comparisons of lengths before the calls on a rest only make the recursion
  visibly terminating: a rest is always shorter than the input it is the rest of, so
  they never fail (\<open>parse_elements_eq\<close> and \<open>parse_members_eq\<close> below are the equations
  without them).\<close>

function parse_value :: "string \<Rightarrow> (json \<times> string) option"
  and parse_elements :: "string \<Rightarrow> (json list \<times> string) option"
  and parse_members :: "string \<Rightarrow> ((string \<times> json) list \<times> string) option"
where
  "parse_value cs =
     (case skip_ws cs of
        [] \<Rightarrow> None
      | c # r \<Rightarrow>
          if c = CHR ''{'' then
            (case skip_ws r of
               [] \<Rightarrow> None
             | d # r' \<Rightarrow> if d = CHR ''}'' then Some (JObject [], r')
                         else map_option (apfst JObject) (parse_members (d # r')))
          else if c = CHR ''['' then
            (case skip_ws r of
               [] \<Rightarrow> None
             | d # r' \<Rightarrow> if d = CHR '']'' then Some (JArray [], r')
                         else map_option (apfst JArray) (parse_elements (d # r')))
          else if c = CHR 0x22 then map_option (apfst JString) (parse_string r)
          else if c = CHR ''-'' \<or> is_digit c then parse_number (c # r)
          else parse_literal (c # r))"
| "parse_elements cs =
     (case parse_value cs of
        None \<Rightarrow> None
      | Some (v, r) \<Rightarrow>
          (case skip_ws r of
             [] \<Rightarrow> None
           | c # r' \<Rightarrow>
               if c = CHR '','' then
                 (if length r' < length cs
                  then map_option (apfst (\<lambda>vs. v # vs)) (parse_elements r')
                  else None)
               else if c = CHR '']'' then Some ([v], r')
               else None))"
| "parse_members cs =
     (case skip_ws cs of
        [] \<Rightarrow> None
      | c # r \<Rightarrow>
          if c = CHR 0x22 then
            (case parse_string r of
               None \<Rightarrow> None
             | Some (k, r1) \<Rightarrow>
                 (case skip_ws r1 of
                    [] \<Rightarrow> None
                  | d # r2 \<Rightarrow>
                      if d = CHR '':'' \<and> length r2 < length cs then
                        (case parse_value r2 of
                           None \<Rightarrow> None
                         | Some (v, r3) \<Rightarrow>
                             (case skip_ws r3 of
                                [] \<Rightarrow> None
                              | e # r4 \<Rightarrow>
                                  if e = CHR '','' then
                                    (if length r4 < length cs
                                     then map_option (apfst (\<lambda>ms. (k, v) # ms)) (parse_members r4)
                                     else None)
                                  else if e = CHR ''}'' then Some ([(k, v)], r4)
                                  else None))
                      else None))
          else None)"
  by pat_completeness auto
termination
  by (relation "measures
        [\<lambda>x. case x of Inl cs \<Rightarrow> length cs | Inr (Inl cs) \<Rightarrow> length cs | Inr (Inr cs) \<Rightarrow> length cs,
         \<lambda>x. case x of Inl cs \<Rightarrow> 0 | Inr y \<Rightarrow> 1]")
     (auto dest!: skip_ws_Cons)

declare parse_value.simps [simp del] parse_elements.simps [simp del]
  parse_members.simps [simp del]

text \<open>The whole text must be one value, with nothing but white space after it.\<close>

definition JSON_parse :: "string \<Rightarrow> json option" where
  "JSON_parse s =
     (case parse_value s of
        None \<Rightarrow> None
      | Some (j, r) \<Rightarrow> if skip_ws r = [] then Some j else None)"

subsection \<open>Props, data and computed properties\<close>

text \<open>The props the script reads (\<open>binary\<close> is null, here \<open>None\<close>, for autodetection)
  and the two data fields \<open>expanded\<close> and \<open>standAloneHide\<close>. The prop \<open>value\<close> is the
  field \<open>dt_value\<close>. \<open>maxLength\<close> is a number; the model takes the integers.\<close>

record detail_text =
  dt_value :: string
  maxLength :: int
  binary :: "bool option"
  conceal :: bool
  concealStandAlone :: bool
  expanded :: bool
  standAloneHide :: bool

text \<open>What the component imports and is not under src/, as parameters: the test
  \<open>asciiLike\<close> of \<open>@shell/utils/string\<close>, \<open>binarySize\<close> of \<open>@shell/utils/crypto\<close>, the
  translation of \<open>detailText.binary\<close> for a size, and the getter \<open>prefs/get\<close> of the store.
  \<open>HIDE_SENSITIVE\<close> is the one preference the component reads.\<close>

datatype pref_key = HIDE_SENSITIVE

record collaborators =
  asciiLike :: "string \<Rightarrow> bool"
  binarySize :: "string \<Rightarrow> int"
  t_binary :: "int \<Rightarrow> string"
  prefs_get :: "pref_key \<Rightarrow> prim"

text \<open>\<open>a && b\<close> on values: \<open>b\<close> when \<open>a\<close> is truthy, else \<open>a\<close>.\<close>

definition js_and :: "prim \<Rightarrow> prim \<Rightarrow> prim" where
  "js_and a b = (if truthy a then b else a)"

text \<open>\<open>s.slice(0, e)\<close> for an integer \<open>e\<close>: a negative end counts from the end of the
  string.\<close>

definition js_slice0 :: "string \<Rightarrow> int \<Rightarrow> string" where
  "js_slice0 s e = (if e < 0 then take (nat (int (length s) + e)) s else take (nat e) s)"

text \<open>\<open>s.startsWith(p)\<close>.\<close>

definition startsWith :: "string \<Rightarrow> string \<Rightarrow> bool" where
  "startsWith s p = (take (length p) s = p)"

text \<open>The data function: \<open>expanded = this.value.length <= this.maxLength\<close> and
  \<open>standAloneHide: true\<close>.\<close>

definition detail_data :: "detail_text \<Rightarrow> detail_text" where
  "detail_data c =
     c\<lparr>expanded := (int (length (dt_value c)) \<le> maxLength c), standAloneHide := True\<rparr>"

text \<open>\<open>isBinary\<close>: autodetected when the prop is null (the value is a string, so the
  \<open>typeof\<close> test holds).\<close>

definition isBinary :: "collaborators \<Rightarrow> detail_text \<Rightarrow> bool" where
  "isBinary env c =
     (case binary c of
        None \<Rightarrow> \<not> asciiLike env (dt_value c)
      | Some b \<Rightarrow> b)"

definition size_dt :: "detail_text \<Rightarrow> int" where
  "size_dt c = int (length (dt_value c))"

definition isLong :: "detail_text \<Rightarrow> bool" where
  "isLong c = (size_dt c > maxLength c)"

definition isEmpty :: "detail_text \<Rightarrow> bool" where
  "isEmpty c = (size_dt c = 0)"

definition body :: "collaborators \<Rightarrow> detail_text \<Rightarrow> string" where
  "body env c =
     (if isBinary env c then
        t_binary env (if length (dt_value c) \<noteq> 0 then binarySize env (dt_value c) else 0)
      else if expanded c then dt_value c
      else js_slice0 (dt_value c) (maxLength c))"

text \<open>\<open>jsonStr\<close>. The \<open>try\<close> holds both \<open>JSON.parse(value)\<close> and
  \<open>JSON.stringify(parsed, null, 2)\<close>, and the empty \<open>catch\<close> lets either failure fall
  through to the final \<open>return null\<close> (\<open>None\<close>). \<open>JSON.stringify\<close> is a parameter: the
  text it lays out depends on how the engine prints numbers, and it throws (\<open>None\<close>),
  for one, a \<open>RangeError\<close> on a value nested deeper than the engine's stack allows.\<close>

definition jsonStr :: "(json \<Rightarrow> string option) \<Rightarrow> detail_text \<Rightarrow> string option" where
  "jsonStr stringify c =
     (let v = dt_value c
      in if v \<noteq> [] \<and> (startsWith v ''{'' \<or> startsWith v ''['') then
           (case JSON_parse v of
              None \<Rightarrow> None
            | Some parsed \<Rightarrow>
                (case stringify parsed of
                   None \<Rightarrow> None
                 | Some rendering \<Rightarrow> Some rendering))
         else None)"

text \<open>A parsed value that is an object or an array.\<close>

fun isContainer :: "json \<Rightarrow> bool" where
  "isContainer (JArray vs) = True"
| "isContainer (JObject ms) = True"
| "isContainer _ = False"

definition hideSensitiveData :: "collaborators \<Rightarrow> detail_text \<Rightarrow> prim" where
  "hideSensitiveData env c =
     (if concealStandAlone c then Bool (standAloneHide c) else prefs_get env HIDE_SENSITIVE)"

text \<open>\<open>concealed\<close>: \<open>this.conceal && this.hideSensitiveData && !this.isBinary\<close>. The class
  binding \<open>'conceal': concealed\<close> reads its truthiness.\<close>

definition concealed :: "collaborators \<Rightarrow> detail_text \<Rightarrow> prim" where
  "concealed env c =
     js_and (js_and (Bool (conceal c)) (hideSensitiveData env c)) (Bool (\<not> isBinary env c))"

text \<open>The method \<open>expand\<close>, and the click handler of the button that the template shows
  when \<open>conceal && concealStandAlone\<close>: \<open>standAloneHide = !standAloneHide\<close>.\<close>

definition expand :: "detail_text \<Rightarrow> detail_text" where
  "expand c = c\<lparr>expanded := \<not> expanded c\<rparr>"

definition sensitive_click :: "detail_text \<Rightarrow> detail_text" where
  "sensitive_click c = c\<lparr>standAloneHide := \<not> standAloneHide c\<rparr>"

text \<open>\<open>String.prototype.trim\<close>, which the spec names and the script does not call: it
  strips tab, line feed, vertical tab, form feed, carriage return, space and the
  no-break space from both ends.\<close>

definition is_js_space :: "char \<Rightarrow> bool" where
  "is_js_space c =
     (c \<in> set [CHR 0x09, CHR 0x0A, CHR 0x0B, CHR 0x0C, CHR 0x0D, CHR 0x20, CHR 0xA0])"

definition trim :: "string \<Rightarrow> string" where
  "trim s = rev (dropWhile is_js_space (rev (dropWhile is_js_space s)))"

text \<open>The props as the component declares their defaults, and collaborators for the
  examples: every text counts as ASCII-like, the size is the length, the label is
  fixed and the shared preference is on.\<close>

definition default_detail_text :: detail_text where
  "default_detail_text =
     \<lparr> dt_value = [], maxLength = 640, binary = None, conceal = False,
       concealStandAlone = False, expanded = True, standAloneHide = True \<rparr>"

definition sample_collaborators :: collaborators where
  "sample_collaborators =
     \<lparr> asciiLike = (\<lambda>s. True), binarySize = (\<lambda>s. int (length s)),
       t_binary = (\<lambda>n. ''binary''), prefs_get = (\<lambda>k. Bool True) \<rparr>"

text \<open>A \<open>JSON.stringify\<close> for the examples. \<open>layout\<close> is the indented text of a parsed
  value, two spaces a level, with numbers and strings as the source wrote them and the
  members in the order of the source (the built-in prints numbers and strings in its
  own normal form and keeps one member per key). \<open>stringify_within\<close> gives that text for
  a value nested no deeper than a limit and fails beyond it.\<close>

fun nesting :: "json \<Rightarrow> nat" where
  "nesting (JArray vs) = Suc (foldr max (map nesting vs) 0)"
| "nesting (JObject ms) = Suc (foldr max (map (\<lambda>(k, v). nesting v) ms) 0)"
| "nesting _ = 0"

definition pad :: "nat \<Rightarrow> string" where
  "pad n = replicate (2 * n) (CHR '' '')"

fun join_with :: "string \<Rightarrow> string list \<Rightarrow> string" where
  "join_with sep [] = []"
| "join_with sep [x] = x"
| "join_with sep (x # y # ys) = x @ sep @ join_with sep (y # ys)"

fun layout :: "nat \<Rightarrow> json \<Rightarrow> string" where
  "layout n JNull = ''null''"
| "layout n (JBool b) = (if b then ''true'' else ''false'')"
| "layout n (JNumber s) = s"
| "layout n (JString s) = CHR 0x22 # s @ [CHR 0x22]"
| "layout n (JArray vs) =
     (if vs = [] then ''[]''
      else ''['' @ [CHR 0x0A]
           @ join_with ('','' @ [CHR 0x0A]) (map (\<lambda>v. pad (Suc n) @ layout (Suc n) v) vs)
           @ [CHR 0x0A] @ pad n @ '']'')"
| "layout n (JObject ms) =
     (if ms = [] then ''{}''
      else ''{'' @ [CHR 0x0A]
           @ join_with ('','' @ [CHR 0x0A])
               (map (\<lambda>(k, v). pad (Suc n) @ CHR 0x22 # k @ [CHR 0x22] @ '': ''
                                @ layout (Suc n) v) ms)
           @ [CHR 0x0A] @ pad n @ ''}'')"

definition stringify_within :: "nat \<Rightarrow> json \<Rightarrow> string option" where
  "stringify_within limit j = (if nesting j \<le> limit then Some (layout 0 j) else None)"

section \<open>Properties of the checkbox\<close>

subsection \<open>Auxiliary facts\<close>

lemma strict_eq_truthy: "truthy w \<Longrightarrow> strict_eq v w = (v = w)"
  by (cases v; cases w) auto

lemma js_find_eq_cases:
  "js_find_eq vs w = Undefined \<and> (\<forall>v\<in>set vs. \<not> strict_eq v w) \<or>
   js_find_eq vs w \<in> set vs \<and> strict_eq (js_find_eq vs w) w"
  by (induction vs) auto

text \<open>For a truthy \<open>valueWhenTrue\<close> the flag of a collection is membership.\<close>

lemma truthy_findTrueValues:
  "truthy w \<Longrightarrow> truthy (findTrueValues vs w) = (w \<in> set vs)"
  using js_find_eq_cases [of vs w]
  by (auto simp: findTrueValues_def js_or_def strict_eq_truthy)

lemma removeObject_remove1: "truthy w \<Longrightarrow> removeObject vs w = remove1 w vs"
  by (induction vs) (auto simp: strict_eq_truthy)

lemma isChecked_content:
  "truthy (isChecked h c) = checked_content (content_of h (value c)) (valueWhenTrue c)"
  by (cases "value c") (simp_all add: isChecked_def)

text \<open>One activation that is not suppressed: the owner's new component differs from the
  old one in the value only, the new value is allocated, and what it holds is the
  spec's next value for the flag the component computed.\<close>

lemma toggle_result:
  assumes "\<not> isDisabled c" "\<not> is_link ev" "allocated h (value c)"
  shows "fst (toggle h c ev) = c\<lparr>value := value (fst (toggle h c ev))\<rparr> \<and>
         allocated (snd (toggle h c ev)) (value (fst (toggle h c ev))) \<and>
         content_of (snd (toggle h c ev)) (value (fst (toggle h c ev))) =
           next_value (truthy (isChecked h c)) (content_of h (value c)) (valueWhenTrue c)"
proof (cases "value c")
  case (Prim p)
  with assms show ?thesis
    by (auto simp: toggle_def clicked_def is_link_def isChecked_def effects_of_def)
next
  case (Arr a)
  with assms have a: "a < length h" by simp
  have chk: "isChecked (h @ [deref h a]) c = isChecked h c"
    using Arr a by (simp add: isChecked_def deref_def nth_append)
  show ?thesis using assms Arr a chk
    by (auto simp: toggle_def clicked_def is_link_def array_update_def deref_def
        addObject_def Let_def)
qed

lemma toggle_value_after:
  assumes "\<not> isDisabled c" "\<not> is_link ev" "allocated h (value c)"
  shows "value_after (toggle h c ev) =
           next_value (checked_content (content_of h (value c)) (valueWhenTrue c))
             (content_of h (value c)) (valueWhenTrue c)"
    and "valueWhenTrue (fst (toggle h c ev)) = valueWhenTrue c"
    and "isDisabled (fst (toggle h c ev)) = isDisabled c"
    and "allocated (snd (toggle h c ev)) (value (fst (toggle h c ev)))"
proof -
  note v = toggle_result [OF assms]
  show "value_after (toggle h c ev) =
           next_value (checked_content (content_of h (value c)) (valueWhenTrue c))
             (content_of h (value c)) (valueWhenTrue c)"
    using v by (simp add: value_after_def isChecked_content)
  have "valueWhenTrue (c\<lparr>value := value (fst (toggle h c ev))\<rparr>) = valueWhenTrue c" by simp
  then show "valueWhenTrue (fst (toggle h c ev)) = valueWhenTrue c" using v by simp
  have "isDisabled (c\<lparr>value := value (fst (toggle h c ev))\<rparr>) = isDisabled c"
    by (simp add: isDisabled_def)
  then show "isDisabled (fst (toggle h c ev)) = isDisabled c" using v by simp
  show "allocated (snd (toggle h c ev)) (value (fst (toggle h c ev)))" using v by simp
qed

text \<open>Two activations in terms of what the value holds.\<close>

lemma toggle_twice_content:
  assumes "\<not> isDisabled c" "\<not> is_link ev1" "\<not> is_link ev2" "allocated h (value c)"
  shows "value_after (toggle_twice h c ev1 ev2) = twice (content_of h (value c)) (valueWhenTrue c)"
    and "checked_after (toggle_twice h c ev1 ev2) =
           checked_content (twice (content_of h (value c)) (valueWhenTrue c)) (valueWhenTrue c)"
proof -
  let ?r = "toggle h c ev1"
  have r: "toggle_twice h c ev1 ev2 = toggle (snd ?r) (fst ?r) ev2"
    by (simp add: toggle_twice_def split: prod.splits)
  note one = toggle_value_after [OF assms(1,2,4)]
  have d: "\<not> isDisabled (fst ?r)" using one(3) assms(1) by simp
  note two = toggle_value_after [OF d assms(3) one(4)]
  have va: "content_of (snd ?r) (value (fst ?r)) =
      next_value (checked_content (content_of h (value c)) (valueWhenTrue c))
        (content_of h (value c)) (valueWhenTrue c)"
    using one(1) by (simp add: value_after_def)
  show v2: "value_after (toggle_twice h c ev1 ev2) = twice (content_of h (value c)) (valueWhenTrue c)"
    unfolding r two(1) va one(2) two(2) twice_def Let_def ..
  show "checked_after (toggle_twice h c ev1 ev2) =
           checked_content (twice (content_of h (value c)) (valueWhenTrue c)) (valueWhenTrue c)"
    using v2 two(2) one(2) unfolding r
    by (simp add: checked_after_def value_after_def isChecked_content)
qed

lemma twice_negation: "\<not> isString w \<Longrightarrow> twice (Scalar p) w = Scalar (Bool (truthy p))"
  by (simp add: twice_def)

lemma twice_string:
  assumes "isString w"
  shows "checked_content (twice (Scalar p) w) w = strict_eq p w"
    and "twice (Scalar p) w = Scalar (if strict_eq p w then p else Null)"
proof -
  from assms obtain s where w: "w = Str s" by (cases w) simp_all
  show "checked_content (twice (Scalar p) w) w = strict_eq p w"
    by (simp add: twice_def w)
  show "twice (Scalar p) w = Scalar (if strict_eq p w then p else Null)"
    by (cases p) (simp_all add: twice_def w)
qed

lemma twice_collection:
  assumes "truthy w" "count_list vs w \<le> 1"
  shows "\<exists>us. twice (Collection vs) w = Collection us \<and> mset us = mset vs \<and>
           checked_content (Collection us) w = checked_content (Collection vs) w"
proof (cases "w \<in> set vs")
  case False
  then have "remove1 w (vs @ [w]) = vs" by (simp add: remove1_append)
  with False assms show ?thesis
    by (simp add: twice_def truthy_findTrueValues removeObject_remove1)
next
  case True
  have "count (mset (remove1 w vs)) w = 0"
    using assms(2) by (simp add: count_mset)
  then have "w \<notin> set (remove1 w vs)"
    by (metis count_mset count_list_0_iff)
  with True assms show ?thesis
    by (simp add: twice_def truthy_findTrueValues removeObject_remove1)
qed

text \<open>The handler when \<open>valueWhenTrue\<close> is a number and the value a scalar.\<close>

lemma clicked_numeric:
  assumes "isNumber (valueWhenTrue c)" "value c = Prim p"
  shows "clicked h c ev =
     (if is_link ev then (Bool True, [], h)
      else if isDisabled c then (Undefined, [StopPropagation, PreventDefault], h)
      else (Undefined,
            [StopPropagation, PreventDefault, Emit_update_value (Prim (Bool (\<not> truthy p))),
             DispatchClick True False (shiftKey ev) (altKey ev) (ctrlKey ev) (metaKey ev)], h))"
  using assms by (cases "valueWhenTrue c") (simp_all add: clicked_def is_link_def)

lemma toggle_numeric:
  assumes "isNumber (valueWhenTrue c)" "value c = Prim p"
  shows "toggle h c ev =
     (if is_link ev \<or> isDisabled c then (c, h) else (c\<lparr>value := Prim (Bool (\<not> truthy p))\<rparr>, h))"
    and "proposals (effects_of (clicked h c ev)) =
     (if is_link ev \<or> isDisabled c then [] else [Prim (Bool (\<not> truthy p))])"
  by (simp_all add: toggle_def effects_of_def clicked_numeric [OF assms])

text \<open>Along a run every proposal is a boolean, the sentinel stays, and the value is a
  boolean from the first proposal on.\<close>

lemma run_numeric:
  assumes "isNumber (valueWhenTrue c)" "value c = Prim p"
  shows "list_all isBoolean (fst (run h c evs)) \<and>
         valueWhenTrue (fst (snd (run h c evs))) = valueWhenTrue c \<and>
         (\<exists>q. value (fst (snd (run h c evs))) = Prim q \<and>
              (isBoolean (Prim p) \<or> fst (run h c evs) \<noteq> [] \<longrightarrow> isBoolean (Prim q)))"
  using assms
proof (induction evs arbitrary: h c p)
  case Nil
  then show ?case by simp
next
  case (Cons ev evs)
  show ?case
  proof (cases "is_link ev \<or> isDisabled c")
    case True
    then have t: "toggle h c ev = (c, h)" "proposals (effects_of (clicked h c ev)) = []"
      using toggle_numeric [OF Cons.prems] by simp_all
    show ?thesis using Cons.IH [OF Cons.prems, of h] t
      by (simp split: prod.splits)
  next
    case False
    let ?c = "c\<lparr>value := Prim (Bool (\<not> truthy p))\<rparr>"
    have t: "toggle h c ev = (?c, h)"
      "proposals (effects_of (clicked h c ev)) = [Prim (Bool (\<not> truthy p))]"
      using toggle_numeric [OF Cons.prems] False by simp_all
    have "isNumber (valueWhenTrue ?c)" "value ?c = Prim (Bool (\<not> truthy p))"
      using Cons.prems by simp_all
    from Cons.IH [OF this, of h] show ?thesis using t
      by (auto split: prod.splits)
  qed
qed

subsection \<open>C1: the derived flag\<close>

text \<open>
  C1 says that for a collection the derived flag \<open>isChecked\<close> is true if and only if
  \<open>valueWhenTrue\<close> is an element of the collection, and for a scalar if and only if
  \<open>value === valueWhenTrue\<close>. \<open>findTrueValues\<close> returns the element that \<open>find\<close> found,
  so with the falsy sentinel \<open>false\<close> and the collection \<open>[false]\<close> the sentinel is
  present, the spec's flag is true, and \<open>isChecked\<close> is \<open>false || false\<close>.
\<close>

theorem isChecked_falsy_sentinel:
  "checked_spec (content_of [[Bool False]] (Arr 0)) (Bool False) \<and>
   isChecked [[Bool False]] (default_checkbox\<lparr>value := Arr 0, valueWhenTrue := Bool False\<rparr>)
     = Bool False"
  by (simp add: deref_def isChecked_def findTrueValues_def js_or_def)

subsection \<open>The handler follows its own flag\<close>

text \<open>
  Every activation that is not suppressed (the control is not disabled and the target
  is not a link) emits exactly one value proposal, and it is the next value of the
  spec's toggle algorithm for the flag that the component itself computes, the
  truthiness of \<open>isChecked\<close>. A value that is a collection is a reference to an array of
  the store.
\<close>

lemma clicked_follows_isChecked:
  assumes "\<not> isDisabled c" and "\<not> is_link ev" and "allocated h (value c)"
  shows "map (content_of (heap_of (clicked h c ev))) (proposals (effects_of (clicked h c ev)))
         = [next_value (truthy (isChecked h c)) (content_of h (value c)) (valueWhenTrue c)]"
proof (cases "value c")
  case (Prim p)
  with assms show ?thesis
    by (simp add: clicked_def is_link_def effects_of_def heap_of_def isChecked_def)
next
  case (Arr a)
  with assms have a: "a < length h" by simp
  have chk: "isChecked (h @ [deref h a]) c = isChecked h c"
    using Arr a by (simp add: isChecked_def deref_def nth_append)
  show ?thesis using assms Arr a chk
    by (simp add: clicked_def is_link_def effects_of_def heap_of_def array_update_def
        deref_def addObject_def Let_def)
qed

text \<open>From \<open>"yes"\<close> with the sentinel \<open>"yes"\<close> the handler proposes null, and from null it
  proposes \<open>"yes"\<close>.\<close>

lemma clicked_string_sentinel_examples:
  "map (content_of (heap_of (clicked []
          (default_checkbox\<lparr>value := Prim (Str ''yes''), valueWhenTrue := Str ''yes''\<rparr>) plain_click)))
     (proposals (effects_of (clicked []
          (default_checkbox\<lparr>value := Prim (Str ''yes''), valueWhenTrue := Str ''yes''\<rparr>) plain_click)))
     = [Scalar Null] \<and>
   map (content_of (heap_of (clicked []
          (default_checkbox\<lparr>value := Prim Null, valueWhenTrue := Str ''yes''\<rparr>) plain_click)))
     (proposals (effects_of (clicked []
          (default_checkbox\<lparr>value := Prim Null, valueWhenTrue := Str ''yes''\<rparr>) plain_click)))
     = [Scalar (Str ''yes'')]"
  using
    clicked_follows_isChecked [of
      "default_checkbox\<lparr>value := Prim (Str ''yes''), valueWhenTrue := Str ''yes''\<rparr>" plain_click "[]"]
    clicked_follows_isChecked [of
      "default_checkbox\<lparr>value := Prim Null, valueWhenTrue := Str ''yes''\<rparr>" plain_click "[]"]
  by (simp add: default_checkbox_def plain_click_def isDisabled_def is_link_def EDIT_def VIEW_def
      isChecked_def)

subsection \<open>C2: the value the handler proposes\<close>

text \<open>
  C2 says that every activation that is not suppressed emits exactly one value
  proposal: for a collection a copy with \<open>valueWhenTrue\<close> removed when checked and with
  \<open>valueWhenTrue\<close> appended otherwise; else, for a string \<open>valueWhenTrue\<close>, null when
  checked and \<open>valueWhenTrue\<close> otherwise; else the negation of the value. Checked is, for
  a collection, that \<open>valueWhenTrue\<close> is present in it. With the collection \<open>[false]\<close>
  and the sentinel \<open>false\<close> the control is checked, and the claim has a plain click
  propose the copy without the sentinel, the empty collection. \<open>isChecked\<close> is false
  there (C1), so the handler takes the other branch: what it proposes is the copy
  after \<open>addObject\<close>, which still holds the sentinel.
\<close>

theorem clicked_falsy_sentinel_not_removed:
  "checked_spec (content_of [[Bool False]] (Arr 0)) (Bool False) \<and>
   next_value (checked_spec (content_of [[Bool False]] (Arr 0)) (Bool False))
     (content_of [[Bool False]] (Arr 0)) (Bool False) = Collection [] \<and>
   map (content_of (heap_of (clicked [[Bool False]]
          (default_checkbox\<lparr>value := Arr 0, valueWhenTrue := Bool False\<rparr>) plain_click)))
     (proposals (effects_of (clicked [[Bool False]]
          (default_checkbox\<lparr>value := Arr 0, valueWhenTrue := Bool False\<rparr>) plain_click)))
     = [Collection (addObject [Bool False] (Bool False))] \<and>
   Bool False \<in> set (addObject [Bool False] (Bool False))"
  by (simp add: deref_def clicked_def effects_of_def heap_of_def default_checkbox_def
      plain_click_def isDisabled_def EDIT_def VIEW_def isChecked_def findTrueValues_def
      js_or_def array_update_def addObject_def Let_def)

subsection \<open>C3: toggling twice\<close>

text \<open>
  C3 says that toggling twice from any starting value, in each of the three modes,
  gives a value equivalent to the starting one. With the sentinel twice in the
  collection it does not: from \<open>["a","a"]\<close> with the sentinel \<open>"a"\<close> the first activation
  removes one \<open>"a"\<close>, the control is still checked, and the second removes the other. The
  control starts checked with two elements and ends unchecked with none.
\<close>

theorem toggle_twice_duplicates_counterexample:
  "value_after (default_checkbox\<lparr>value := Arr 0, valueWhenTrue := Str ''a''\<rparr>,
                [[Str ''a'', Str ''a'']])
     = Collection [Str ''a'', Str ''a''] \<and>
   checked_after (default_checkbox\<lparr>value := Arr 0, valueWhenTrue := Str ''a''\<rparr>,
                  [[Str ''a'', Str ''a'']]) \<and>
   value_after (toggle_twice [[Str ''a'', Str ''a'']]
                  (default_checkbox\<lparr>value := Arr 0, valueWhenTrue := Str ''a''\<rparr>)
                  plain_click plain_click)
     = Collection [] \<and>
   \<not> checked_after (toggle_twice [[Str ''a'', Str ''a'']]
                      (default_checkbox\<lparr>value := Arr 0, valueWhenTrue := Str ''a''\<rparr>)
                      plain_click plain_click)"
  by (simp add: value_after_def checked_after_def toggle_twice_def toggle_def clicked_def
      default_checkbox_def plain_click_def isDisabled_def EDIT_def VIEW_def isChecked_def
      deref_def findTrueValues_def js_or_def array_update_def addObject_def Let_def)

text \<open>
  C3 as amended. Two activations that are not suppressed, the first proposal fed back
  before the second:
  \<^item> from a scalar with a \<open>valueWhenTrue\<close> that is not a string, the value is the
    boolean the starting value counts as, so a boolean starting value is the value
    again;
  \<^item> from a scalar with a string \<open>valueWhenTrue\<close>, the control is checked exactly if it
    was at the start, and the value is the sentinel again if it was the sentinel and
    null otherwise, so a starting value that is null or the sentinel is the value
    again;
  \<^item> from a collection with a truthy \<open>valueWhenTrue\<close> that occurs in it at most once, the
    control is checked exactly if it was at the start and the value holds the same
    elements as the starting collection, each as often, possibly in another order.
\<close>

theorem toggle_twice_round_trip:
  assumes "\<not> isDisabled c" and "\<not> is_link ev1" and "\<not> is_link ev2"
    and "allocated h (value c)"
  shows "(\<forall>p. value c = Prim p \<and> \<not> isString (valueWhenTrue c) \<longrightarrow>
            value_after (toggle_twice h c ev1 ev2) = Scalar (Bool (truthy p))) \<and>
         (\<forall>b. value c = Prim (Bool b) \<and> \<not> isString (valueWhenTrue c) \<longrightarrow>
            value_after (toggle_twice h c ev1 ev2) = Scalar (Bool b)) \<and>
         (\<forall>p. value c = Prim p \<and> isString (valueWhenTrue c) \<longrightarrow>
            checked_after (toggle_twice h c ev1 ev2) = truthy (isChecked h c) \<and>
            value_after (toggle_twice h c ev1 ev2)
              = Scalar (if strict_eq p (valueWhenTrue c) then p else Null)) \<and>
         (\<forall>a. value c = Arr a \<and> truthy (valueWhenTrue c) \<and>
              count_list (deref h a) (valueWhenTrue c) \<le> 1 \<longrightarrow>
            checked_after (toggle_twice h c ev1 ev2) = truthy (isChecked h c) \<and>
            (\<exists>us. value_after (toggle_twice h c ev1 ev2) = Collection us \<and>
                  mset us = mset (deref h a)))"
proof (intro conjI allI impI)
  fix p assume "value c = Prim p \<and> \<not> isString (valueWhenTrue c)"
  then show "value_after (toggle_twice h c ev1 ev2) = Scalar (Bool (truthy p))"
    using toggle_twice_content(1) [OF assms] by (simp add: twice_negation)
next
  fix b assume "value c = Prim (Bool b) \<and> \<not> isString (valueWhenTrue c)"
  then show "value_after (toggle_twice h c ev1 ev2) = Scalar (Bool b)"
    using toggle_twice_content(1) [OF assms] by (simp add: twice_negation)
next
  fix p assume p: "value c = Prim p \<and> isString (valueWhenTrue c)"
  then show "checked_after (toggle_twice h c ev1 ev2) = truthy (isChecked h c)"
    using toggle_twice_content(2) [OF assms] by (simp add: twice_string(1) isChecked_content)
  from p show "value_after (toggle_twice h c ev1 ev2)
                 = Scalar (if strict_eq p (valueWhenTrue c) then p else Null)"
    using toggle_twice_content(1) [OF assms] twice_string(2) [of "valueWhenTrue c" p] by simp
next
  fix a
  assume a: "value c = Arr a \<and> truthy (valueWhenTrue c) \<and>
             count_list (deref h a) (valueWhenTrue c) \<le> 1"
  then obtain us where us:
      "twice (Collection (deref h a)) (valueWhenTrue c) = Collection us"
      "mset us = mset (deref h a)"
      "checked_content (Collection us) (valueWhenTrue c) =
         checked_content (Collection (deref h a)) (valueWhenTrue c)"
    using twice_collection by blast
  show "checked_after (toggle_twice h c ev1 ev2) = truthy (isChecked h c)"
    using toggle_twice_content(2) [OF assms] a us by (simp add: isChecked_content)
  show "\<exists>us. value_after (toggle_twice h c ev1 ev2) = Collection us \<and>
             mset us = mset (deref h a)"
    using toggle_twice_content(1) [OF assms] a us by simp
qed

text \<open>The example of the claim: from \<open>["a","b"]\<close> with the sentinel \<open>"a"\<close> the first
  activation proposes \<open>["b"]\<close> and the second \<open>["b","a"]\<close>, the elements of the start in
  another order, and the control is checked again. And from the default value \<open>false\<close>
  with the sentinel \<open>"yes"\<close> two activations end at null: unchecked as at the start, but
  not the starting value.\<close>

theorem toggle_twice_round_trip_witness:
  "value_after (toggle [[Str ''a'', Str ''b'']]
      (default_checkbox\<lparr>value := Arr 0, valueWhenTrue := Str ''a''\<rparr>) plain_click)
     = Collection [Str ''b''] \<and>
   value_after (toggle_twice [[Str ''a'', Str ''b'']]
      (default_checkbox\<lparr>value := Arr 0, valueWhenTrue := Str ''a''\<rparr>) plain_click plain_click)
     = Collection [Str ''b'', Str ''a''] \<and>
   mset [Str ''b'', Str ''a''] = mset (deref [[Str ''a'', Str ''b'']] 0) \<and>
   checked_after (toggle_twice [[Str ''a'', Str ''b'']]
      (default_checkbox\<lparr>value := Arr 0, valueWhenTrue := Str ''a''\<rparr>) plain_click plain_click) \<and>
   value_after (toggle_twice [] (default_checkbox\<lparr>valueWhenTrue := Str ''yes''\<rparr>)
      plain_click plain_click) = Scalar Null"
proof -
  let ?c = "default_checkbox\<lparr>value := Arr 0, valueWhenTrue := Str ''a''\<rparr>"
  let ?h = "[[Str ''a'', Str ''b'']]"
  have hyps: "\<not> isDisabled ?c" "\<not> is_link plain_click" "allocated ?h (value ?c)"
    by (simp_all add: isDisabled_def default_checkbox_def EDIT_def VIEW_def is_link_def
        plain_click_def)
  have once: "value_after (toggle ?h ?c plain_click) = Collection [Str ''b'']"
    by (simp add: value_after_def toggle_def clicked_def default_checkbox_def plain_click_def
        isDisabled_def EDIT_def VIEW_def isChecked_def deref_def findTrueValues_def js_or_def
        array_update_def Let_def)
  have start: "value ?c = Arr 0 \<and> truthy (valueWhenTrue ?c) \<and>
               count_list (deref ?h 0) (valueWhenTrue ?c) \<le> 1"
    by (simp add: deref_def)
  have checked: "truthy (isChecked ?h ?c)"
    by (simp add: isChecked_def deref_def findTrueValues_def js_or_def)
  note t = toggle_twice_round_trip [OF hyps(1) hyps(2) hyps(2) hyps(3)]
  from t start checked
  have again: "checked_after (toggle_twice ?h ?c plain_click plain_click)"
    by blast
  from t start obtain us where
    us: "value_after (toggle_twice ?h ?c plain_click plain_click) = Collection us"
        "mset us = mset (deref ?h 0)"
    by blast
  have twice: "value_after (toggle_twice ?h ?c plain_click plain_click)
                 = Collection [Str ''b'', Str ''a'']"
    by (simp add: value_after_def toggle_twice_def toggle_def clicked_def default_checkbox_def
        plain_click_def isDisabled_def EDIT_def VIEW_def isChecked_def deref_def
        findTrueValues_def js_or_def array_update_def addObject_def Let_def)
  from us twice have same: "mset [Str ''b'', Str ''a''] = mset (deref ?h 0)"
    by simp
  let ?d = "default_checkbox\<lparr>valueWhenTrue := Str ''yes''\<rparr>"
  have hyps': "\<not> isDisabled ?d" "allocated [] (value ?d)"
    and start': "value ?d = Prim (Bool False) \<and> isString (valueWhenTrue ?d)"
    by (simp_all add: isDisabled_def default_checkbox_def EDIT_def VIEW_def)
  from toggle_twice_round_trip [OF hyps'(1) hyps(2) hyps(2) hyps'(2)] start'
  have "value_after (toggle_twice [] ?d plain_click plain_click)
          = Scalar (if strict_eq (Bool False) (valueWhenTrue ?d) then Bool False else Null)"
    by blast
  then have unset: "value_after (toggle_twice [] ?d plain_click plain_click) = Scalar Null"
    by simp
  from once twice same again unset show ?thesis by blast
qed

subsection \<open>C4: the value prop is never changed in place\<close>


subsection \<open>C5: suppressed activations\<close>

text \<open>
  C5: when the control is disabled (the prop \<open>disabled\<close> is true or the mode is view) the
  handler proposes no value, whatever the event; and when the target of the event is a
  link with an href the handler does nothing at all, disabled or not: no proposal, no
  \<open>preventDefault\<close>, no \<open>stopPropagation\<close>, and it returns true.
\<close>

theorem clicked_suppressed:
  "(disabled c \<or> mode c = VIEW \<longrightarrow> proposals (effects_of (clicked h c ev)) = []) \<and>
   (target_tagName ev = ''A'' \<and> truthy (target_href ev) \<longrightarrow>
      clicked h c ev = (Bool True, [], h))"
  by (simp add: clicked_def isDisabled_def effects_of_def)

text \<open>A disabled control and a control in view mode propose nothing on a plain click,
  and a click on a link inside a disabled control is left alone.\<close>

theorem clicked_suppressed_witness:
  "proposals (effects_of (clicked [] (default_checkbox\<lparr>disabled := True\<rparr>) plain_click)) = [] \<and>
   proposals (effects_of (clicked [] (default_checkbox\<lparr>mode := ''view''\<rparr>) plain_click)) = [] \<and>
   clicked [] (default_checkbox\<lparr>disabled := True\<rparr>)
     (plain_click\<lparr>target_tagName := ''A'', target_href := Str ''https://example.com/''\<rparr>)
     = (Bool True, [], [])"
  using
    clicked_suppressed [of "default_checkbox\<lparr>disabled := True\<rparr>" "[]" plain_click]
    clicked_suppressed [of "default_checkbox\<lparr>mode := ''view''\<rparr>" "[]" plain_click]
    clicked_suppressed [of "default_checkbox\<lparr>disabled := True\<rparr>" "[]"
      "plain_click\<lparr>target_tagName := ''A'', target_href := Str ''https://example.com/''\<rparr>"]
  by (simp add: VIEW_def)

subsection \<open>C6: the \<open>aria-describedby\<close> attribute\<close>

text \<open>
  C6 says that the attribute joins the inherited id and the internal id when both an
  inherited id and a description or tooltip are present, is the one that is present
  when exactly one is, and is omitted when neither is. The script looks at
  \<open>descriptionKey\<close> and \<open>description\<close> only: with a tooltip, no description and no
  inherited id, a description-or-tooltip is present and the attribute is omitted all
  the same.
\<close>

theorem ariaDescribedBy_tooltip_counterexample:
  "hasTooltip (default_checkbox\<lparr>tooltip := Some ''tip''\<rparr>) \<and>
   attrs_aria_describedby (default_checkbox\<lparr>tooltip := Some ''tip''\<rparr>) = None \<and>
   describedById (default_checkbox\<lparr>tooltip := Some ''tip''\<rparr>) = ''described-by-abcdefghijkl'' \<and>
   ariaDescribedBy (default_checkbox\<lparr>tooltip := Some ''tip''\<rparr>) = None"
  by (simp add: hasTooltip_def truthy_str_def default_checkbox_def ariaDescribedBy_def)

text \<open>
  C6 as amended: the internal id counts when \<open>descriptionKey\<close> or \<open>description\<close> is a
  non-empty string, and the tooltip props play no part. An inherited id is present
  when the attribute is a non-empty string. With both, the attribute is the inherited
  id, one space and the internal id; with one, that one; with neither, it is
  undefined.
\<close>

theorem ariaDescribedBy_cases:
  "(\<forall>i. attrs_aria_describedby c = Some i \<and> i \<noteq> [] \<and> hasDescription c \<longrightarrow>
      ariaDescribedBy (checkbox_data random c) = Some (i @ '' '' @ ''described-by-'' @ random)) \<and>
   (\<forall>i. attrs_aria_describedby c = Some i \<and> i \<noteq> [] \<and> \<not> hasDescription c \<longrightarrow>
      ariaDescribedBy (checkbox_data random c) = Some i) \<and>
   (\<not> truthy_str (attrs_aria_describedby c) \<and> hasDescription c \<longrightarrow>
      ariaDescribedBy (checkbox_data random c) = Some (''described-by-'' @ random)) \<and>
   (\<not> truthy_str (attrs_aria_describedby c) \<and> \<not> hasDescription c \<longrightarrow>
      ariaDescribedBy (checkbox_data random c) = None) \<and>
   ariaDescribedBy (c\<lparr>tooltip := t, tooltipKey := k\<rparr>) = ariaDescribedBy c"
  by (simp add: ariaDescribedBy_def checkbox_data_def hasDescription_def truthy_str_def
      template_def)

theorem ariaDescribedBy_cases_witness:
  "ariaDescribedBy (checkbox_data ''qwertyuiopas''
     (default_checkbox\<lparr>attrs_aria_describedby := Some ''hint'', description := Some ''More''\<rparr>))
     = Some ''hint described-by-qwertyuiopas'' \<and>
   ariaDescribedBy (checkbox_data ''qwertyuiopas''
     (default_checkbox\<lparr>attrs_aria_describedby := Some ''hint''\<rparr>)) = Some ''hint'' \<and>
   ariaDescribedBy (checkbox_data ''qwertyuiopas''
     (default_checkbox\<lparr>descriptionKey := Some ''some.key''\<rparr>))
     = Some ''described-by-qwertyuiopas'' \<and>
   ariaDescribedBy (checkbox_data ''qwertyuiopas'' default_checkbox) = None"
  using
    ariaDescribedBy_cases [of
      "default_checkbox\<lparr>attrs_aria_describedby := Some ''hint'', description := Some ''More''\<rparr>"
      "''qwertyuiopas''"]
    ariaDescribedBy_cases [of
      "default_checkbox\<lparr>attrs_aria_describedby := Some ''hint''\<rparr>" "''qwertyuiopas''"]
    ariaDescribedBy_cases [of
      "default_checkbox\<lparr>descriptionKey := Some ''some.key''\<rparr>" "''qwertyuiopas''"]
    ariaDescribedBy_cases [of default_checkbox "''qwertyuiopas''"]
  by (simp add: hasDescription_def truthy_str_def default_checkbox_def)

subsection \<open>C10: a numeric sentinel\<close>

text \<open>
  C10: when \<open>valueWhenTrue\<close> is a number and the value a scalar, an activation that is
  not suppressed proposes the negation of the value, a boolean. So no run of
  activations, the owner feeding each proposal back in, ever proposes the sentinel;
  and once one proposal has been made the control is unchecked at the end of every
  run, since no boolean is strictly equal to a number.
\<close>

theorem numeric_sentinel_never_returns:
  assumes "isNumber (valueWhenTrue c)" and "value c = Prim p"
  shows "(\<not> isDisabled c \<and> \<not> is_link ev \<longrightarrow>
            proposals (effects_of (clicked h c ev)) = [Prim (Bool (\<not> truthy p))]) \<and>
         Prim (valueWhenTrue c) \<notin> set (fst (run h c evs)) \<and>
         (fst (run h c evs) \<noteq> [] \<longrightarrow> \<not> checked_after (snd (run h c evs)))"
proof (intro conjI impI)
  assume "\<not> isDisabled c \<and> \<not> is_link ev"
  then show "proposals (effects_of (clicked h c ev)) = [Prim (Bool (\<not> truthy p))]"
    using toggle_numeric(2) [OF assms] by simp
next
  note r = run_numeric [OF assms, of h evs]
  have "\<not> isBoolean (Prim (valueWhenTrue c))"
    using assms(1) by (cases "valueWhenTrue c") simp_all
  with r show "Prim (valueWhenTrue c) \<notin> set (fst (run h c evs))"
    by (auto simp: list_all_iff)
  assume ne: "fst (run h c evs) \<noteq> []"
  with r obtain q where q: "value (fst (snd (run h c evs))) = Prim q" "isBoolean (Prim q)"
    by blast
  then obtain b where "q = Bool b" by (cases q) simp_all
  with q r assms(1) show "\<not> checked_after (snd (run h c evs))"
    by (cases "valueWhenTrue c") (simp_all add: checked_after_def isChecked_def)
qed

text \<open>With the sentinel 5 and the value 5 the control is checked; three clicks propose
  false, true and false, and the control is unchecked after them.\<close>

theorem numeric_sentinel_never_returns_witness:
  "checked_after (default_checkbox\<lparr>value := Prim (Num 5), valueWhenTrue := Num 5\<rparr>, []) \<and>
   proposals (effects_of (clicked []
       (default_checkbox\<lparr>value := Prim (Num 5), valueWhenTrue := Num 5\<rparr>) plain_click))
     = [Prim (Bool False)] \<and>
   fst (run [] (default_checkbox\<lparr>value := Prim (Num 5), valueWhenTrue := Num 5\<rparr>)
          [plain_click, plain_click, plain_click])
     = [Prim (Bool False), Prim (Bool True), Prim (Bool False)] \<and>
   \<not> checked_after (snd (run [] (default_checkbox\<lparr>value := Prim (Num 5), valueWhenTrue := Num 5\<rparr>)
          [plain_click, plain_click, plain_click]))"
proof -
  let ?c = "default_checkbox\<lparr>value := Prim (Num 5), valueWhenTrue := Num 5\<rparr>"
  have n: "isNumber (valueWhenTrue ?c)" and v: "value ?c = Prim (Num 5)" by simp_all
  have e: "\<not> isDisabled ?c \<and> \<not> is_link plain_click"
    by (simp add: isDisabled_def default_checkbox_def EDIT_def VIEW_def is_link_def
        plain_click_def)
  have ps: "fst (run [] ?c [plain_click, plain_click, plain_click])
     = [Prim (Bool False), Prim (Bool True), Prim (Bool False)]"
    by (simp add: toggle_def clicked_def effects_of_def default_checkbox_def plain_click_def
        isDisabled_def EDIT_def VIEW_def isChecked_def)
  have c0: "checked_after (?c, [])" by (simp add: checked_after_def isChecked_def)
  have ne: "fst (run [] ?c [plain_click, plain_click, plain_click]) \<noteq> []"
    unfolding ps by simp
  note t = numeric_sentinel_never_returns
    [OF n v, of plain_click "[]" "[plain_click, plain_click, plain_click]"]
  have one: "proposals (effects_of (clicked [] ?c plain_click)) = [Prim (Bool False)]"
    using t e by simp
  have off: "\<not> checked_after (snd (run [] ?c [plain_click, plain_click, plain_click]))"
    using t ne by blast
  show ?thesis using c0 one ps off by blast
qed

section \<open>Properties of the detail text\<close>

subsection \<open>The parser consumes its input\<close>

text \<open>Whatever a parsing function returns as the rest is shorter than its input.\<close>

lemma parse_string_shorter: "parse_string cs = Some (s, r) \<Longrightarrow> length r < length cs"
proof (induction cs arbitrary: s r rule: parse_string.induct)
  case 1
  then show ?case by simp
next
  case (2 c cs)
  then show ?case
    by (fastforce split: if_splits list.splits simp: apfst_def map_prod_def)
qed

lemma dropWhile_le: "length (dropWhile P xs) \<le> length xs"
  by (induction xs) auto

lemma parse_digits_shorter: "parse_digits cs = Some r \<Longrightarrow> length r \<le> length cs"
  by (auto simp: parse_digits_def dropWhile_le split: if_splits)

lemma parse_int_shorter: "parse_int cs = Some r \<Longrightarrow> length r < length cs"
  by (auto simp: parse_int_def dropWhile_le less_Suc_eq_le split: if_splits list.splits)

lemma parse_frac_shorter: "parse_frac cs = Some r \<Longrightarrow> length r \<le> length cs"
  by (auto simp: parse_frac_def split: if_splits list.splits dest!: parse_digits_shorter)

lemma parse_exp_shorter: "parse_exp cs = Some r \<Longrightarrow> length r \<le> length cs"
  by (auto simp: parse_exp_def split: if_splits list.splits dest!: parse_digits_shorter)

lemma parse_number_shorter: "parse_number cs = Some (v, r) \<Longrightarrow> length r < length cs"
  by (auto simp: parse_number_def Let_def split: option.splits if_splits list.splits Option.bind_splits
      dest!: parse_int_shorter parse_frac_shorter parse_exp_shorter)

lemma parse_literal_shorter: "parse_literal cs = Some (v, r) \<Longrightarrow> length r < length cs"
  by (auto simp: parse_literal_def split: if_splits) (cases cs; simp)+

lemma parse_elements_step:
  assumes pv: "\<And>v r. parse_value cs = Some (v, r) \<Longrightarrow> length r < length cs"
    and ih: "\<And>cs' vs r. length cs' < length cs \<Longrightarrow> parse_elements cs' = Some (vs, r) \<Longrightarrow> length r < length cs'"
    and a: "parse_elements cs = Some (vs, r)"
  shows "length r < length cs"
proof -
  from a obtain v r1 where v: "parse_value cs = Some (v, r1)"
    by (subst (asm) parse_elements.simps) (auto split: option.splits)
  from pv v have l1: "length r1 < length cs" by blast
  from a v obtain c r2 where c: "skip_ws r1 = c # r2"
    by (subst (asm) parse_elements.simps) (auto split: list.splits)
  note l2 = skip_ws_Cons [OF c]
  show "length r < length cs"
  proof (cases "c = CHR '',''")
    case True
    with a v c l1 l2 obtain vs' where "parse_elements r2 = Some (vs', r)"
      by (subst (asm) parse_elements.simps) (auto split: if_splits)
    moreover have "length r2 < length cs" using l1 l2 by simp
    ultimately have "length r < length r2" using ih by blast
    with l1 l2 show ?thesis by simp
  next
    case False
    with a v c have "r = r2"
      by (subst (asm) parse_elements.simps) (auto split: if_splits)
    with l1 l2 show ?thesis by simp
  qed
qed

lemma parse_members_step:
  assumes pv: "\<And>cs' v r. length cs' < length cs \<Longrightarrow> parse_value cs' = Some (v, r) \<Longrightarrow> length r < length cs'"
    and ih: "\<And>cs' ms r. length cs' < length cs \<Longrightarrow> parse_members cs' = Some (ms, r) \<Longrightarrow> length r < length cs'"
    and a: "parse_members cs = Some (ms, r)"
  shows "length r < length cs"
proof -
  from a obtain c r0 where c: "skip_ws cs = c # r0" "c = CHR 0x22"
    by (subst (asm) parse_members.simps) (auto split: list.splits if_splits)
  note l0 = skip_ws_Cons [OF c(1)]
  from a c obtain k r1 where k: "parse_string r0 = Some (k, r1)"
    by (subst (asm) parse_members.simps) (auto split: option.splits)
  note l1 = parse_string_shorter [OF k]
  from a c k obtain d r2 where d: "skip_ws r1 = d # r2" "d = CHR '':''" "length r2 < length cs"
    by (subst (asm) parse_members.simps) (auto split: list.splits if_splits)
  from a c k d obtain v r3 where v: "parse_value r2 = Some (v, r3)"
    by (subst (asm) parse_members.simps) (auto split: option.splits)
  from pv [OF d(3) v] have l3: "length r3 < length r2" .
  from a c k d v obtain e r4 where e: "skip_ws r3 = e # r4"
    by (subst (asm) parse_members.simps) (auto split: list.splits)
  note l4 = skip_ws_Cons [OF e]
  show ?thesis
  proof (cases "e = CHR '',''")
    case True
    with a c k d v e l3 l4 obtain ms' where "parse_members r4 = Some (ms', r)"
      by (subst (asm) parse_members.simps) (auto split: if_splits)
    moreover have "length r4 < length cs" using l3 l4 d(3) by simp
    ultimately have "length r < length r4" using ih by blast
    with l3 l4 d(3) show ?thesis by simp
  next
    case False
    with a c k d v e have "r = r4"
      by (subst (asm) parse_members.simps) (auto split: if_splits)
    with l3 l4 d(3) show ?thesis by simp
  qed
qed

lemma parse_value_step:
  assumes pe: "\<And>cs' vs r. length cs' < length cs \<Longrightarrow> parse_elements cs' = Some (vs, r) \<Longrightarrow> length r < length cs'"
    and pm: "\<And>cs' ms r. length cs' < length cs \<Longrightarrow> parse_members cs' = Some (ms, r) \<Longrightarrow> length r < length cs'"
    and a: "parse_value cs = Some (v, r)"
  shows "length r < length cs"
proof -
  from a obtain c r0 where c: "skip_ws cs = c # r0"
    by (subst (asm) parse_value.simps) (auto split: list.splits)
  note l0 = skip_ws_Cons [OF c]
  consider (obj) "c = CHR ''{''" | (arr) "c \<noteq> CHR ''{''" "c = CHR ''[''"
    | (str) "c \<noteq> CHR ''{''" "c \<noteq> CHR ''[''" "c = CHR 0x22"
    | (num) "c \<noteq> CHR ''{''" "c \<noteq> CHR ''[''" "c \<noteq> CHR 0x22" "c = CHR ''-'' \<or> is_digit c"
    | (lit) "c \<noteq> CHR ''{''" "c \<noteq> CHR ''[''" "c \<noteq> CHR 0x22" "\<not> (c = CHR ''-'' \<or> is_digit c)"
    by blast
  then show ?thesis
  proof cases
    case obj
    from a c obj obtain d r1 where d: "skip_ws r0 = d # r1"
      by (subst (asm) parse_value.simps) (auto split: list.splits)
    note l1 = skip_ws_Cons [OF d]
    show ?thesis
    proof (cases "d = CHR ''}''")
      case True
      with a c obj d have "r = r1" by (subst (asm) parse_value.simps) auto
      with l0 l1 show ?thesis by simp
    next
      case False
      with a c obj d obtain ms where "parse_members (d # r1) = Some (ms, r)"
        by (subst (asm) parse_value.simps) auto
      moreover have "length (d # r1) < length cs" using l0 l1 by simp
      ultimately have "length r < length (d # r1)" using pm by blast
      with l0 l1 show ?thesis by simp
    qed
  next
    case arr
    from a c arr obtain d r1 where d: "skip_ws r0 = d # r1"
      by (subst (asm) parse_value.simps) (auto split: list.splits)
    note l1 = skip_ws_Cons [OF d]
    show ?thesis
    proof (cases "d = CHR '']''")
      case True
      with a c arr d have "r = r1" by (subst (asm) parse_value.simps) auto
      with l0 l1 show ?thesis by simp
    next
      case False
      with a c arr d obtain vs where "parse_elements (d # r1) = Some (vs, r)"
        by (subst (asm) parse_value.simps) auto
      moreover have "length (d # r1) < length cs" using l0 l1 by simp
      ultimately have "length r < length (d # r1)" using pe by blast
      with l0 l1 show ?thesis by simp
    qed
  next
    case str
    with a c obtain s where "parse_string r0 = Some (s, r)"
      by (subst (asm) parse_value.simps) auto
    from parse_string_shorter [OF this] l0 show ?thesis by simp
  next
    case num
    with a c have "parse_number (c # r0) = Some (v, r)"
      by (subst (asm) parse_value.simps) auto
    from parse_number_shorter [OF this] l0 show ?thesis by simp
  next
    case lit
    with a c have "parse_literal (c # r0) = Some (v, r)"
      by (subst (asm) parse_value.simps) auto
    from parse_literal_shorter [OF this] l0 show ?thesis by simp
  qed
qed

lemma parse_shorter_all:
  "(\<forall>v r. parse_value cs = Some (v, r) \<longrightarrow> length r < length cs) \<and>
   (\<forall>vs r. parse_elements cs = Some (vs, r) \<longrightarrow> length r < length cs) \<and>
   (\<forall>ms r. parse_members cs = Some (ms, r) \<longrightarrow> length r < length cs)"
proof (induction cs rule: length_induct)
  case (1 cs)
  have pv: "\<And>v r. parse_value cs = Some (v, r) \<Longrightarrow> length r < length cs"
    using 1 parse_value_step [of cs] by blast
  have pe: "\<And>vs r. parse_elements cs = Some (vs, r) \<Longrightarrow> length r < length cs"
    using 1 pv parse_elements_step [of cs] by blast
  have pm: "\<And>ms r. parse_members cs = Some (ms, r) \<Longrightarrow> length r < length cs"
    using 1 parse_members_step [of cs] by blast
  from pv pe pm show ?case by blast
qed

text \<open>So the comparisons in \<open>parse_elements\<close> and \<open>parse_members\<close> always hold, and the
  two functions satisfy the equations of the grammar.\<close>

lemma parse_elements_eq:
  "parse_elements cs =
     (case parse_value cs of
        None \<Rightarrow> None
      | Some (v, r) \<Rightarrow>
          (case skip_ws r of
             [] \<Rightarrow> None
           | c # r' \<Rightarrow>
               if c = CHR '','' then map_option (apfst (\<lambda>vs. v # vs)) (parse_elements r')
               else if c = CHR '']'' then Some ([v], r')
               else None))"
proof -
  have "length r' < length cs" if "parse_value cs = Some (v, r)" "skip_ws r = c # r'" for v r c r'
    using that parse_shorter_all [of cs] skip_ws_Cons [of r c r'] by force
  then show ?thesis
    by (subst parse_elements.simps) (auto split: option.splits list.splits)
qed

lemma parse_members_eq:
  "parse_members cs =
     (case skip_ws cs of
        [] \<Rightarrow> None
      | c # r \<Rightarrow>
          if c = CHR 0x22 then
            (case parse_string r of
               None \<Rightarrow> None
             | Some (k, r1) \<Rightarrow>
                 (case skip_ws r1 of
                    [] \<Rightarrow> None
                  | d # r2 \<Rightarrow>
                      if d = CHR '':'' then
                        (case parse_value r2 of
                           None \<Rightarrow> None
                         | Some (v, r3) \<Rightarrow>
                             (case skip_ws r3 of
                                [] \<Rightarrow> None
                              | e # r4 \<Rightarrow>
                                  if e = CHR '','' then
                                    map_option (apfst (\<lambda>ms. (k, v) # ms)) (parse_members r4)
                                  else if e = CHR ''}'' then Some ([(k, v)], r4)
                                  else None))
                      else None))
          else None)"
proof -
  have 1: "length r2 < length cs"
    if "skip_ws cs = c # r" "parse_string r = Some (k, r1)" "skip_ws r1 = d # r2" for c r k r1 d r2
    using that skip_ws_Cons [of cs c r] parse_string_shorter [of r k r1] skip_ws_Cons [of r1 d r2]
    by force
  have 2: "length r4 < length cs"
    if "skip_ws cs = c # r" "parse_string r = Some (k, r1)" "skip_ws r1 = d # r2"
       "parse_value r2 = Some (v, r3)" "skip_ws r3 = e # r4" for c r k r1 d r2 v r3 e r4
    using 1 [OF that(1-3)] that(4,5) parse_shorter_all [of r2] skip_ws_Cons [of r3 e r4]
    by force
  show ?thesis
    by (subst parse_members.simps) (auto split: option.splits list.splits simp: 1 2)
qed

subsection \<open>What a brace or a bracket at the start means\<close>

text \<open>A text that starts with a brace or a bracket and parses is an object or an
  array, and it still starts with that character once trimmed.\<close>

lemma JSON_parse_container:
  assumes "startsWith v ''{'' \<or> startsWith v ''[''" and "JSON_parse v = Some j"
  shows "isContainer j"
proof -
  from assms(2) obtain r where pv: "parse_value v = Some (j, r)"
    by (auto simp: JSON_parse_def split: option.splits if_splits)
  from assms(1) obtain x t where v: "v = x # t" "x = CHR ''{'' \<or> x = CHR ''[''"
    by (cases v) (auto simp: startsWith_def)
  then have sk: "skip_ws v = x # t" by (auto simp: is_ws_def)
  from pv sk v(2) show ?thesis
    by (subst (asm) parse_value.simps) (auto split: list.splits if_splits)
qed

lemma trim_first:
  assumes "\<not> is_js_space x"
  shows "\<exists>ys. trim (x # xs) = x # ys"
proof (cases "\<forall>y\<in>set (rev xs). is_js_space y")
  case True
  with assms have "trim (x # xs) = [x]" by (simp add: trim_def dropWhile_append)
  then show ?thesis by simp
next
  case False
  with assms have "trim (x # xs) = x # rev (dropWhile is_js_space (rev xs))"
    by (simp add: trim_def dropWhile_append)
  then show ?thesis by blast
qed

lemma startsWith_trim:
  assumes "startsWith v ''{'' \<or> startsWith v ''[''"
  shows "startsWith (trim v) ''{'' \<or> startsWith (trim v) ''[''"
proof -
  from assms obtain x t where v: "v = x # t" "x = CHR ''{'' \<or> x = CHR ''[''"
    by (cases v) (auto simp: startsWith_def)
  then have "\<not> is_js_space x" by (auto simp: is_js_space_def)
  from trim_first [OF this, of t] obtain ys where "trim v = x # ys" using v(1) by blast
  with v(2) show ?thesis by (auto simp: startsWith_def)
qed

subsection \<open>C7: the JSON classification\<close>

text \<open>
  C7 says that \<open>jsonStr\<close> returns a rendering if and only if the value, after trimming,
  starts with a brace or a bracket and parses as JSON. The script does not trim: a
  value with a space before the brace starts with the brace once trimmed, parses both
  trimmed and as it is, and what it parses to can be rendered; \<open>jsonStr\<close> returns null
  for it.
\<close>

theorem jsonStr_leading_space_counterexample:
  "startsWith (trim '' {}'') ''{'' \<and>
   JSON_parse (trim '' {}'') = Some (JObject []) \<and>
   JSON_parse '' {}'' = Some (JObject []) \<and>
   stringify_within 1000 (JObject []) = Some ''{}'' \<and>
   jsonStr (stringify_within 1000) (default_detail_text\<lparr>dt_value := '' {}''\<rparr>) = None"
  by (simp add: startsWith_def trim_def is_js_space_def JSON_parse_def is_ws_def jsonStr_def
      parse_value.simps stringify_within_def)

text \<open>
  C7 as amended, for every \<open>JSON.stringify\<close>: \<open>jsonStr\<close> returns a rendering if and only
  if the value itself, not trimmed, is not empty, starts with a brace or a bracket,
  parses as JSON, and the rendering of what it parses to does not fail. The rendering
  is then that of the parsed value, which is an object or an array, and the value also
  starts with a brace or a bracket once trimmed. In every other case, a parse error
  and a failure of the rendering among them, \<open>jsonStr\<close> returns null. It is a total
  function: no input makes it raise.
\<close>

theorem jsonStr_classification:
  "(jsonStr stringify c \<noteq> None) =
     (dt_value c \<noteq> [] \<and> (startsWith (dt_value c) ''{'' \<or> startsWith (dt_value c) ''['') \<and>
      (\<exists>j. JSON_parse (dt_value c) = Some j \<and> stringify j \<noteq> None)) \<and>
   (jsonStr stringify c \<noteq> None \<longrightarrow>
      (\<exists>j. JSON_parse (dt_value c) = Some j \<and> isContainer j \<and>
           jsonStr stringify c = stringify j) \<and>
      (startsWith (trim (dt_value c)) ''{'' \<or> startsWith (trim (dt_value c)) ''['')) \<and>
   (JSON_parse (dt_value c) = None \<longrightarrow> jsonStr stringify c = None) \<and>
   (\<forall>j. JSON_parse (dt_value c) = Some j \<and> stringify j = None \<longrightarrow> jsonStr stringify c = None)"
proof (intro conjI impI allI)
  show "(jsonStr stringify c \<noteq> None) =
     (dt_value c \<noteq> [] \<and> (startsWith (dt_value c) ''{'' \<or> startsWith (dt_value c) ''['') \<and>
      (\<exists>j. JSON_parse (dt_value c) = Some j \<and> stringify j \<noteq> None))"
    by (auto simp: jsonStr_def Let_def split: option.splits)
next
  assume r: "jsonStr stringify c \<noteq> None"
  then have g: "startsWith (dt_value c) ''{'' \<or> startsWith (dt_value c) ''[''"
    by (auto simp: jsonStr_def Let_def split: if_splits)
  from r obtain j where j: "JSON_parse (dt_value c) = Some j"
    by (auto simp: jsonStr_def Let_def split: if_splits option.splits)
  with r g have "jsonStr stringify c = stringify j"
    by (auto simp: jsonStr_def Let_def split: if_splits option.splits)
  with j JSON_parse_container [OF g j]
  show "\<exists>j. JSON_parse (dt_value c) = Some j \<and> isContainer j \<and>
            jsonStr stringify c = stringify j"
    by blast
  from startsWith_trim [OF g]
  show "startsWith (trim (dt_value c)) ''{'' \<or> startsWith (trim (dt_value c)) ''[''" .
next
  assume "JSON_parse (dt_value c) = None"
  then show "jsonStr stringify c = None" by (simp add: jsonStr_def Let_def)
next
  fix j assume "JSON_parse (dt_value c) = Some j \<and> stringify j = None"
  then show "jsonStr stringify c = None" by (simp add: jsonStr_def Let_def)
qed

text \<open>The example of the spec, an object with one member, is classified as JSON and
  rendered on three lines. A text cut off after the colon and a plain text are not
  JSON. An array nested three deep parses, but a \<open>JSON.stringify\<close> that fails beyond two
  levels makes it plain text as well.\<close>

theorem jsonStr_classification_witness:
  "jsonStr (stringify_within 1000) (default_detail_text\<lparr>dt_value := ''{\"a\":1}''\<rparr>)
     = Some (''{'' @ [CHR 0x0A] @ ''  \"a\": 1'' @ [CHR 0x0A] @ ''}'') \<and>
   jsonStr (stringify_within 1000) (default_detail_text\<lparr>dt_value := ''{\"a\":''\<rparr>) = None \<and>
   jsonStr (stringify_within 1000) (default_detail_text\<lparr>dt_value := ''plain''\<rparr>) = None \<and>
   JSON_parse ''[[[]]]'' = Some (JArray [JArray [JArray []]]) \<and>
   jsonStr (stringify_within 2) (default_detail_text\<lparr>dt_value := ''[[[]]]''\<rparr>) = None"
proof -
  let ?j = "JObject [(''a'', JNumber ''1'')]"
  have p: "JSON_parse ''{\"a\":1}'' = Some ?j"
    by (simp add: JSON_parse_def is_ws_def is_digit_def parse_number_def parse_int_def
        parse_frac_def parse_exp_def parse_value.simps parse_members.simps)
  have q: "JSON_parse ''{\"a\":'' = None"
    by (simp add: JSON_parse_def is_ws_def is_digit_def parse_literal_def parse_value.simps
        parse_members.simps)
  have d: "JSON_parse ''[[[]]]'' = Some (JArray [JArray [JArray []]])"
    by (simp add: JSON_parse_def is_ws_def parse_value.simps parse_elements.simps)
  have s1: "stringify_within 1000 ?j
              = Some (''{'' @ [CHR 0x0A] @ ''  \"a\": 1'' @ [CHR 0x0A] @ ''}'')"
    by (simp add: stringify_within_def pad_def numeral_2_eq_2)
  have s2: "stringify_within 2 (JArray [JArray [JArray []]]) = None"
    by (simp add: stringify_within_def)
  have a: "jsonStr (stringify_within 1000) (default_detail_text\<lparr>dt_value := ''{\"a\":1}''\<rparr>)
             = Some (''{'' @ [CHR 0x0A] @ ''  \"a\": 1'' @ [CHR 0x0A] @ ''}'')"
    using jsonStr_classification
      [of "stringify_within 1000" "default_detail_text\<lparr>dt_value := ''{\"a\":1}''\<rparr>"] p s1
    by (auto simp: startsWith_def)
  have b: "jsonStr (stringify_within 1000) (default_detail_text\<lparr>dt_value := ''{\"a\":''\<rparr>)
             = None"
    using jsonStr_classification
      [of "stringify_within 1000" "default_detail_text\<lparr>dt_value := ''{\"a\":''\<rparr>"] q
    by simp
  have c: "jsonStr (stringify_within 1000) (default_detail_text\<lparr>dt_value := ''plain''\<rparr>)
             = None"
    using jsonStr_classification
      [of "stringify_within 1000" "default_detail_text\<lparr>dt_value := ''plain''\<rparr>"]
    by (auto simp: startsWith_def)
  have e: "jsonStr (stringify_within 2) (default_detail_text\<lparr>dt_value := ''[[[]]]''\<rparr>) = None"
    using jsonStr_classification
      [of "stringify_within 2" "default_detail_text\<lparr>dt_value := ''[[[]]]''\<rparr>"] d s2
    by simp
  show ?thesis using a b c d e by blast
qed

subsection \<open>C8: truncation\<close>

text \<open>
  C8: for a text that is not binary, \<open>expanded\<close> starts as true exactly when the length
  of the value is at most \<open>maxLength\<close>; while the text is long and not expanded the body
  is the first \<open>maxLength\<close> characters of the value; and after \<open>expand\<close> has flipped
  \<open>expanded\<close> the body is the whole value. "The first \<open>maxLength\<close> characters" takes
  \<open>maxLength\<close> to be a count, so not negative.
\<close>

theorem body_truncation:
  assumes "\<not> isBinary env c"
  shows "expanded (detail_data c) = (int (length (dt_value c)) \<le> maxLength c) \<and>
         (0 \<le> maxLength c \<and> isLong c \<and> \<not> expanded c \<longrightarrow>
            body env c = take (nat (maxLength c)) (dt_value c)) \<and>
         (\<not> expanded c \<longrightarrow> body env (expand c) = dt_value c)"
  using assms
  by (auto simp: detail_data_def body_def expand_def isBinary_def js_slice0_def isLong_def
      split: option.splits)

text \<open>The example of the claim: a text of 1000 characters with the default
  \<open>maxLength\<close> of 640 starts not expanded and long, its body has 640 characters, and
  after \<open>expand\<close> it has 1000.\<close>

theorem body_truncation_witness:
  "\<not> isBinary sample_collaborators (default_detail_text\<lparr>dt_value := replicate 1000 (CHR ''x'')\<rparr>) \<and>
   maxLength (default_detail_text\<lparr>dt_value := replicate 1000 (CHR ''x'')\<rparr>) = 640 \<and>
   \<not> expanded (detail_data (default_detail_text\<lparr>dt_value := replicate 1000 (CHR ''x'')\<rparr>)) \<and>
   isLong (detail_data (default_detail_text\<lparr>dt_value := replicate 1000 (CHR ''x'')\<rparr>)) \<and>
   length (body sample_collaborators
     (detail_data (default_detail_text\<lparr>dt_value := replicate 1000 (CHR ''x'')\<rparr>))) = 640 \<and>
   length (body sample_collaborators
     (expand (detail_data (default_detail_text\<lparr>dt_value := replicate 1000 (CHR ''x'')\<rparr>))))
     = 1000"
proof -
  let ?p = "default_detail_text\<lparr>dt_value := replicate 1000 (CHR ''x'')\<rparr>"
  let ?c = "detail_data ?p"
  have nb: "\<not> isBinary sample_collaborators ?p" "\<not> isBinary sample_collaborators ?c"
    by (simp_all add: isBinary_def sample_collaborators_def default_detail_text_def
        detail_data_def)
  have f: "dt_value ?c = replicate 1000 (CHR ''x'')" "maxLength ?c = 640" "maxLength ?p = 640"
    by (simp_all add: detail_data_def default_detail_text_def)
  have init: "\<not> expanded ?c"
    using body_truncation [OF nb(1)] by (simp add: default_detail_text_def)
  have long: "isLong ?c" by (simp add: isLong_def size_dt_def f)
  have b1: "body sample_collaborators ?c = take 640 (replicate 1000 (CHR ''x''))"
    using body_truncation [OF nb(2)] init long f by simp
  have b2: "body sample_collaborators (expand ?c) = replicate 1000 (CHR ''x'')"
    using body_truncation [OF nb(2)] init f by simp
  show ?thesis using nb(1) f(3) init long by (simp add: b1 b2)
qed

subsection \<open>C9: the conceal policy\<close>

text \<open>
  C9: \<open>concealed\<close> is truthy exactly when \<open>conceal\<close> is set, the effective hide flag is
  truthy and the content is not binary. The effective hide flag is the component's own
  \<open>standAloneHide\<close>, which starts as true, when \<open>concealStandAlone\<close> is set, and the
  \<open>HIDE_SENSITIVE\<close> preference of the store otherwise. The button that toggles
  \<open>standAloneHide\<close> is there when \<open>conceal\<close> and \<open>concealStandAlone\<close> are set; for content
  that is not binary a click on it flips \<open>concealed\<close>, and it never changes the value.
\<close>

theorem concealed_policy:
  "truthy (concealed env c)
     = (conceal c \<and> truthy (hideSensitiveData env c) \<and> \<not> isBinary env c) \<and>
   hideSensitiveData env c =
     (if concealStandAlone c then Bool (standAloneHide c) else prefs_get env HIDE_SENSITIVE) \<and>
   standAloneHide (detail_data c) \<and>
   (conceal c \<and> concealStandAlone c \<and> \<not> isBinary env c \<longrightarrow>
      truthy (concealed env (sensitive_click c)) = (\<not> truthy (concealed env c))) \<and>
   dt_value (sensitive_click c) = dt_value c"
  by (simp add: concealed_def js_and_def hideSensitiveData_def detail_data_def
      sensitive_click_def isBinary_def split: option.splits)

text \<open>A concealed standalone text is masked at first and shown after a click on the
  button, with the same value; without \<open>concealStandAlone\<close> the preference decides.\<close>

theorem concealed_policy_witness:
  "truthy (concealed sample_collaborators
     (detail_data (default_detail_text
        \<lparr>dt_value := ''secret'', conceal := True, concealStandAlone := True\<rparr>))) \<and>
   \<not> truthy (concealed sample_collaborators
     (sensitive_click (detail_data (default_detail_text
        \<lparr>dt_value := ''secret'', conceal := True, concealStandAlone := True\<rparr>)))) \<and>
   dt_value (sensitive_click (detail_data (default_detail_text
        \<lparr>dt_value := ''secret'', conceal := True, concealStandAlone := True\<rparr>))) = ''secret'' \<and>
   truthy (concealed sample_collaborators
     (detail_data (default_detail_text\<lparr>dt_value := ''secret'', conceal := True\<rparr>)))"
proof -
  let ?c = "detail_data (default_detail_text
              \<lparr>dt_value := ''secret'', conceal := True, concealStandAlone := True\<rparr>)"
  let ?d = "detail_data (default_detail_text\<lparr>dt_value := ''secret'', conceal := True\<rparr>)"
  have f: "conceal ?c" "concealStandAlone ?c" "\<not> isBinary sample_collaborators ?c"
      "standAloneHide ?c" "dt_value ?c = ''secret''"
      "conceal ?d" "\<not> concealStandAlone ?d" "\<not> isBinary sample_collaborators ?d"
      "prefs_get sample_collaborators HIDE_SENSITIVE = Bool True"
    by (simp_all add: detail_data_def default_detail_text_def isBinary_def
        sample_collaborators_def)
  show ?thesis
    using concealed_policy [of sample_collaborators ?c]
      concealed_policy [of sample_collaborators ?d] f
    by simp
qed

end
